theory Spec2Isabelle
  imports Complex_Main "HOL-Library.Sublist" "HOL-Library.Word"
begin

section \<open>Python values and strings\<close>

text \<open>
  A Python \<open>str\<close> is a sequence of code points. It is modelled as a \<open>string\<close>
  whose characters stand for the code points below 256, so \<open>length\<close> counts what
  Python's \<open>len\<close> counts and slicing cuts where Python cuts.

  Exceptions are values: every function that can raise returns \<open>error + 'a\<close>, with
  \<open>Inl\<close> the exception that leaves the function.
\<close>

datatype error =
    AttributeError
  | TypeError
  | KeyError
  | IndexError
  | ValueError
  | OSError
  | JSONDecodeError
  | CapabilityError string

text \<open>What \<open>json.load\<close> can return: the Python image of a JSON document.\<close>

datatype pyval =
    PNone
  | PBool bool
  | PInt int
  | PFloat "64 word"
  | PStr string
  | PList "pyval list"
  | PDict "(string \<times> pyval) list"

text \<open>\<open>str.isspace\<close> on one code point below 256.\<close>

definition isspace :: "char \<Rightarrow> bool" where
  "isspace c =
     (let n = (of_char c :: nat)
      in (9 \<le> n \<and> n \<le> 13) \<or> (28 \<le> n \<and> n \<le> 32) \<or> n = 133 \<or> n = 160)"

text \<open>\<open>s.strip()\<close>: whitespace removed at both ends.\<close>

definition strip :: "string \<Rightarrow> string" where
  "strip s = rev (dropWhile isspace (rev (dropWhile isspace s)))"

text \<open>\<open>s.lower()\<close> on code points below 256.\<close>

definition lower_char :: "char \<Rightarrow> char" where
  "lower_char c =
     (let n = (of_char c :: nat)
      in if (65 \<le> n \<and> n \<le> 90) \<or> (192 \<le> n \<and> n \<le> 222 \<and> n \<noteq> 215)
         then char_of (n + 32) else c)"

definition lower :: "string \<Rightarrow> string" where
  "lower s = map lower_char s"

text \<open>\<open>s.startswith(p)\<close>.\<close>

definition startswith :: "string \<Rightarrow> string \<Rightarrow> bool" where
  "startswith s p = prefix p s"

text \<open>
  \<open>s.split(sep, 1)\<close> for a non-empty separator: the text is cut at the first
  occurrence of \<open>sep\<close>, scanning from the left; without an occurrence the result is
  the one-element list \<open>[s]\<close>. An empty separator raises \<open>ValueError\<close>.
\<close>

fun split_once :: "string \<Rightarrow> string \<Rightarrow> (string \<times> string) option" where
  "split_once sep [] = None"
| "split_once sep (c # cs) =
     (if prefix sep (c # cs) then Some ([], drop (length sep) (c # cs))
      else (case split_once sep cs of
              None \<Rightarrow> None
            | Some (before, after) \<Rightarrow> Some (c # before, after)))"

definition split1 :: "string \<Rightarrow> string \<Rightarrow> error + string list" where
  "split1 s sep =
     (if sep = [] then Inl ValueError
      else (case split_once sep s of
              None \<Rightarrow> Inr [s]
            | Some (before, after) \<Rightarrow> Inr [before, after]))"

text \<open>\<open>xs[1]\<close> on a list: \<open>IndexError\<close> when there is no second element.\<close>

definition second :: "'a list \<Rightarrow> error + 'a" where
  "second xs = (case xs of _ # y # _ \<Rightarrow> Inr y | _ \<Rightarrow> Inl IndexError)"

text \<open>\<open>_, b = xs\<close>: \<open>ValueError\<close> unless \<open>xs\<close> has exactly two elements.\<close>

definition unpack2 :: "'a list \<Rightarrow> error + ('a \<times> 'a)" where
  "unpack2 xs = (case xs of [a, b] \<Rightarrow> Inr (a, b) | _ \<Rightarrow> Inl ValueError)"

text \<open>\<open>xs[-n:]\<close> on a list or a string: the last \<open>n\<close> elements, all of them when
  there are fewer.\<close>

definition last_n :: "nat \<Rightarrow> 'a list \<Rightarrow> 'a list" where
  "last_n n xs = drop (length xs - n) xs"

text \<open>\<open>sep.join(xs)\<close> on a list of strings.\<close>

fun join :: "string \<Rightarrow> string list \<Rightarrow> string" where
  "join sep [] = []"
| "join sep [x] = x"
| "join sep (x # y # ys) = x @ sep @ join sep (y # ys)"

section \<open>The world outside the process\<close>

text \<open>
  A path of the file system is absent, or it exists and cannot be opened (a directory,
  a file without permission), or it is a text file. \<open>os.path.exists\<close> is true of the
  last two; \<open>open\<close> succeeds for reading on a text file only, and for writing on a
  text file or an absent path, which it creates.
\<close>

datatype fs_entry = Absent | Denied | Text string

type_synonym fs = "string \<Rightarrow> fs_entry"

definition path_exists :: "fs \<Rightarrow> string \<Rightarrow> bool" where
  "path_exists files p = (files p \<noteq> Absent)"

definition read_text :: "fs \<Rightarrow> string \<Rightarrow> error + string" where
  "read_text files p = (case files p of Text s \<Rightarrow> Inr s | _ \<Rightarrow> Inl OSError)"

text \<open>The answer of \<open>requests.get\<close>: the status and what \<open>response.json()\<close> yields.\<close>

record response =
  status_code :: int
  json :: "error + pyval"

text \<open>
  The libraries the agent calls, as parameters: the JSON codec of the \<open>json\<close> module
  and Python's \<open>str()\<close> of a value inside an f-string.
\<close>

record lib =
  json_loads :: "string \<Rightarrow> error + pyval"
  json_dumps :: "pyval \<Rightarrow> string"
  str_of :: "pyval \<Rightarrow> string"

section \<open>Task executors\<close>

text \<open>\<open>LocalAIAgent.summarize_file\<close>.\<close>

definition summarize_file :: "fs \<Rightarrow> string \<Rightarrow> error + string" where
  "summarize_file files file_path =
     (if \<not> path_exists files file_path
      then Inr (''File '' @ [CHR 0x27] @ file_path @ [CHR 0x27] @ '' not found.'')
      else (case read_text files file_path of
              Inl e \<Rightarrow> Inl e
            | Inr content \<Rightarrow> Inr (''Summary: '' @ take 200 content @ ''...'')))"

text \<open>\<open>v[k]\<close> with a string key and \<open>v[0]\<close>, as Python evaluates them on a decoded
  JSON value.\<close>

fun getitem_key :: "pyval \<Rightarrow> string \<Rightarrow> error + pyval" where
  "getitem_key (PDict kvs) k = (case map_of kvs k of None \<Rightarrow> Inl KeyError | Some v \<Rightarrow> Inr v)"
| "getitem_key _ k = Inl TypeError"

fun getitem_zero :: "pyval \<Rightarrow> error + pyval" where
  "getitem_zero (PList []) = Inl IndexError"
| "getitem_zero (PList (x # xs)) = Inr x"
| "getitem_zero (PStr []) = Inl IndexError"
| "getitem_zero (PStr (c # cs)) = Inr (PStr [c])"
| "getitem_zero (PDict kvs) = Inl KeyError"
| "getitem_zero _ = Inl TypeError"

definition api_key :: string where
  "api_key = ''your_openweather_api_key''"

definition weather_url :: "string \<Rightarrow> string" where
  "weather_url location =
     ''https://api.openweathermap.org/data/2.5/weather?q='' @ location
       @ ''&appid='' @ api_key @ ''&units=metric''"

definition weather_failure :: string where
  "weather_failure = ''Unable to fetch weather data. Please check the location.''"

text \<open>\<open>LocalAIAgent.get_weather\<close>; \<open>http_get\<close> is \<open>requests.get\<close>.\<close>

definition get_weather ::
  "lib \<Rightarrow> (string \<Rightarrow> error + response) \<Rightarrow> string \<Rightarrow> error + string" where
  "get_weather l http_get location =
     (case http_get (weather_url location) of
        Inl e \<Rightarrow> Inl e
      | Inr r \<Rightarrow>
          if status_code r = 200 then
            (case json r of
               Inl e \<Rightarrow> Inl e
             | Inr data \<Rightarrow>
                 (case getitem_key data ''weather'' of
                    Inl e \<Rightarrow> Inl e
                  | Inr w \<Rightarrow>
                 (case getitem_zero w of
                    Inl e \<Rightarrow> Inl e
                  | Inr w0 \<Rightarrow>
                 (case getitem_key w0 ''description'' of
                    Inl e \<Rightarrow> Inl e
                  | Inr d \<Rightarrow>
                 (case getitem_key data ''main'' of
                    Inl e \<Rightarrow> Inl e
                  | Inr m \<Rightarrow>
                 (case getitem_key m ''temp'' of
                    Inl e \<Rightarrow> Inl e
                  | Inr t \<Rightarrow>
                      Inr (''Weather in '' @ location @ '': '' @ str_of l d @ '', ''
                             @ str_of l t @ [CHR 0xC2, CHR 0xB0, CHR ''C''])))))))
          else Inr weather_failure)"

section \<open>Task routing\<close>

definition unrecognized :: string where
  "unrecognized = ''Task not recognized. Please try again.''"

text \<open>\<open>LocalAIAgent.perform_task\<close>.\<close>

definition perform_task ::
  "lib \<Rightarrow> (string \<Rightarrow> error + response) \<Rightarrow> fs \<Rightarrow> string \<Rightarrow> error + string" where
  "perform_task l http_get files task =
     (if startswith task ''summarize '' then
        (case split1 task ''summarize '' of
           Inl e \<Rightarrow> Inl e
         | Inr parts \<Rightarrow>
             (case unpack2 parts of
                Inl e \<Rightarrow> Inl e
              | Inr (_, file_path) \<Rightarrow> summarize_file files (strip file_path)))
      else if startswith task ''draft email '' then
        (case split1 task ''draft email '' of
           Inl e \<Rightarrow> Inl e
         | Inr parts \<Rightarrow>
             (case second parts of
                Inl e \<Rightarrow> Inl e
              | Inr content \<Rightarrow> Inr (''Drafting an email based on your input: '' @ content)))
      else if startswith task ''get weather '' then
        (case split1 task ''get weather '' of
           Inl e \<Rightarrow> Inl e
         | Inr parts \<Rightarrow>
             (case second parts of
                Inl e \<Rightarrow> Inl e
              | Inr location \<Rightarrow> get_weather l http_get location))
      else Inr unrecognized)"

section \<open>The agent and its context store\<close>

text \<open>
  The fields of \<open>LocalAIAgent\<close> that the session reads and writes. The context is
  whatever \<open>json.load\<close> returned at start-up, so it is a \<open>pyval\<close>: a list in a
  well-formed session.
\<close>

record agent =
  context_file :: string
  "context" :: pyval

text \<open>\<open>LocalAIAgent.load_context\<close>, reading \<open>self.context_file\<close>.\<close>

definition load_context :: "lib \<Rightarrow> fs \<Rightarrow> string \<Rightarrow> error + pyval" where
  "load_context l files cf =
     (if path_exists files cf then
        (case read_text files cf of
           Inl e \<Rightarrow> Inl e
         | Inr t \<Rightarrow> json_loads l t)
      else Inr (PList []))"


text \<open>\<open>v[-10:]\<close> on a Python value: lists and strings are sliced, anything else
  raises.\<close>

fun slice_last10 :: "pyval \<Rightarrow> error + pyval" where
  "slice_last10 (PList xs) = Inr (PList (last_n 10 xs))"
| "slice_last10 (PStr s) = Inr (PStr (last_n 10 s))"
| "slice_last10 _ = Inl TypeError"

text \<open>
  \<open>LocalAIAgent.save_context\<close>. \<open>open(..., 'w')\<close> empties the file before the slice
  is evaluated, so a slice that raises leaves an empty file behind.
\<close>

definition save_context :: "lib \<Rightarrow> agent \<Rightarrow> fs \<Rightarrow> (error + unit) \<times> fs" where
  "save_context l a files =
     (case files (context_file a) of
        Denied \<Rightarrow> (Inl OSError, files)
      | _ \<Rightarrow>
          (case slice_last10 (context a) of
             Inl e \<Rightarrow> (Inl e, files(context_file a := Text []))
           | Inr v \<Rightarrow> (Inr (), files(context_file a := Text (json_dumps l v)))))"

section \<open>The response generator\<close>

text \<open>\<open>v.append(s)\<close>: only a list has the method.\<close>

fun append_str :: "pyval \<Rightarrow> string \<Rightarrow> error + pyval" where
  "append_str (PList xs) s = Inr (PList (xs @ [PStr s]))"
| "append_str _ s = Inl AttributeError"

text \<open>The elements of a list when all of them are strings.\<close>

fun the_strs :: "pyval list \<Rightarrow> string list option" where
  "the_strs [] = Some []"
| "the_strs (PStr s # vs) = (case the_strs vs of None \<Rightarrow> None | Some ss \<Rightarrow> Some (s # ss))"
| "the_strs (_ # vs) = None"

text \<open>\<open>sep.join(v)\<close>: \<open>TypeError\<close> unless \<open>v\<close> yields strings only. A string
  yields its characters, a dict its keys.\<close>

fun join_val :: "string \<Rightarrow> pyval \<Rightarrow> error + string" where
  "join_val sep (PList xs) =
     (case the_strs xs of None \<Rightarrow> Inl TypeError | Some ss \<Rightarrow> Inr (join sep ss))"
| "join_val sep (PStr s) = Inr (join sep (map (\<lambda>c. [c]) s))"
| "join_val sep (PDict kvs) = Inr (join sep (map fst kvs))"
| "join_val sep _ = Inl TypeError"

text \<open>
  What the inference capability receives: the text given to the tokenizer and the
  arguments of \<open>model.generate\<close>. The two floating-point literals are recorded by
  their decimal value.
\<close>

record gen_request =
  input_text :: string
  max_length :: int
  temperature :: rat
  top_k :: int
  top_p :: rat
  do_sample :: bool

text \<open>
  \<open>LocalAIAgent.generate_response\<close>. \<open>infer\<close> is the tokenizer, the model and the
  decoder taken together, as they answer this call; \<open>max_len = None\<close> is a call
  that leaves the parameter to its default. The agent is returned as the call leaves
  it, also when an exception ends the call.
\<close>

definition generate_response ::
  "lib \<Rightarrow> (gen_request \<Rightarrow> error + string) \<Rightarrow> agent \<Rightarrow> fs \<Rightarrow> string \<Rightarrow> int option
     \<Rightarrow> (error + string) \<times> agent \<times> fs" where
  "generate_response l infer a files prompt max_len =
     (case append_str (context a) (''You: '' @ prompt) of
        Inl e \<Rightarrow> (Inl e, a, files)
      | Inr c1 \<Rightarrow>
          (let a1 = a\<lparr>context := c1\<rparr> in
           case slice_last10 c1 of
             Inl e \<Rightarrow> (Inl e, a1, files)
           | Inr sl \<Rightarrow>
          (case join_val [CHR 0x0A] sl of
             Inl e \<Rightarrow> (Inl e, a1, files)
           | Inr full_context \<Rightarrow>
          (case infer \<lparr>input_text = full_context,
                       max_length = (case max_len of None \<Rightarrow> 200 | Some m \<Rightarrow> m),
                       temperature = 7 / 10, top_k = 50, top_p = 95 / 100,
                       do_sample = True\<rparr> of
             Inl e \<Rightarrow> (Inl e, a1, files)
           | Inr response \<Rightarrow>
          (case append_str c1 (''AI: '' @ response) of
             Inl e \<Rightarrow> (Inl e, a1, files)
           | Inr c2 \<Rightarrow>
          (let a2 = a1\<lparr>context := c2\<rparr> in
           case save_context l a2 files of
             (Inl e, files') \<Rightarrow> (Inl e, a2, files')
           | (Inr _, files') \<Rightarrow> (Inr response, a2, files')))))))"

text \<open>
  Successive chat turns: one call of \<open>generate_response\<close> for each prompt, as the
  loop of \<open>main\<close> makes them, each with the inference capability as it answers that
  call. The first exception ends the run.
\<close>

fun chat_turns ::
  "lib \<Rightarrow> agent \<Rightarrow> fs \<Rightarrow> (string \<times> (gen_request \<Rightarrow> error + string)) list
     \<Rightarrow> (error + string list) \<times> agent \<times> fs" where
  "chat_turns l a files [] = (Inr [], a, files)"
| "chat_turns l a files ((prompt, infer) # rest) =
     (case generate_response l infer a files prompt None of
        (Inl e, a', files') \<Rightarrow> (Inl e, a', files')
      | (Inr r, a', files') \<Rightarrow>
          (case chat_turns l a' files' rest of
             (Inl e, s) \<Rightarrow> (Inl e, s)
           | (Inr rs, s) \<Rightarrow> (Inr (r # rs), s)))"

text \<open>\<open>len(self.context)\<close> for a list context.\<close>

fun context_len :: "pyval \<Rightarrow> nat" where
  "context_len (PList xs) = length xs"
| "context_len _ = 0"

section \<open>The console loop\<close>

text \<open>What the recogniser does during \<open>speech_to_text\<close>: it returns a text, or
  raises one of the two exceptions the method catches, or another one.\<close>

datatype heard = Recognized string | UnknownValueError | WaitTimeoutError | Failed error

text \<open>\<open>LocalAIAgent.speech_to_text\<close>: the lines printed and the result.\<close>

definition speech_to_text :: "heard \<Rightarrow> string list \<times> (error + string)" where
  "speech_to_text h =
     ([''Listening...''],
      (case h of
         Recognized s \<Rightarrow> Inr s
       | UnknownValueError \<Rightarrow> Inr (''Sorry, I didn'' @ [CHR 0x27] @ ''t catch that.'')
       | WaitTimeoutError \<Rightarrow> Inr ''No speech detected.''
       | Failed e \<Rightarrow> Inl e))"

text \<open>The capabilities as they answer during one turn of the loop.\<close>

record turn_caps =
  cap_hear :: heard
  cap_infer :: "gen_request \<Rightarrow> error + string"
  cap_http :: "string \<Rightarrow> error + response"
  cap_say :: "string \<Rightarrow> error + unit"

datatype signal = Stop | Again

text \<open>
  One iteration of the \<open>while True\<close> loop of \<open>main\<close> on the line that \<open>input\<close>
  returned: the signal (\<open>Stop\<close> for \<open>break\<close>), the lines printed, and the agent and
  the files as the iteration leaves them.
\<close>

definition console_turn ::
  "lib \<Rightarrow> turn_caps \<Rightarrow> agent \<Rightarrow> fs \<Rightarrow> string
     \<Rightarrow> (error + signal) \<times> string list \<times> agent \<times> fs" where
  "console_turn l caps a files line =
     (if lower line = ''exit'' then (Inr Stop, [''Goodbye!''], a, files)
      else
        (case (if lower line = ''voice''
               then (case speech_to_text (cap_hear caps) of
                       (out, Inl e) \<Rightarrow> (out, Inl e)
                     | (out, Inr u) \<Rightarrow> (out @ [''You (via voice): '' @ u], Inr u))
               else ([], Inr line)) of
           (out, Inl e) \<Rightarrow> (Inl e, out, a, files)
         | (out, Inr user_input) \<Rightarrow>
             if user_input = [] then (Inr Again, out, a, files)
             else if startswith user_input ''task: '' then
               (case perform_task l (cap_http caps) files (drop 6 user_input) of
                  Inl e \<Rightarrow> (Inl e, out, a, files)
                | Inr r \<Rightarrow> (Inr Again, out @ [r], a, files))
             else
               (case generate_response l (cap_infer caps) a files user_input None of
                  (Inl e, a', files') \<Rightarrow> (Inl e, out, a', files')
                | (Inr response, a', files') \<Rightarrow>
                    (case cap_say caps response of
                       Inl e \<Rightarrow> (Inl e, out @ [''AI: '' @ response], a', files')
                     | Inr _ \<Rightarrow> (Inr Again, out @ [''AI: '' @ response], a', files')))))"

section \<open>Notions used to state the properties\<close>

text \<open>The two entries one chat turn adds to the context: the user's, then the
  agent's.\<close>

definition exchange :: "string \<Rightarrow> string \<Rightarrow> string list" where
  "exchange prompt response = [''You: '' @ prompt, ''AI: '' @ response]"

text \<open>The entries a run of chat turns adds, given the prompts and the responses.\<close>

fun exchanges :: "string list \<Rightarrow> string list \<Rightarrow> string list" where
  "exchanges (p # ps) (r # rs) = exchange p r @ exchanges ps rs"
| "exchanges _ _ = []"

text \<open>The request \<open>generate_response\<close> sends for a rendered text and a
  \<open>max_length\<close> argument.\<close>

definition request :: "string \<Rightarrow> int option \<Rightarrow> gen_request" where
  "request rendered max_len =
     \<lparr>input_text = rendered,
      max_length = (case max_len of None \<Rightarrow> 200 | Some m \<Rightarrow> m),
      temperature = 7 / 10, top_k = 50, top_p = 95 / 100, do_sample = True\<rparr>"

text \<open>The specification's reading of the argument of a task: the text after the
  prefix, trimmed of leading whitespace only.\<close>

definition spec_argument :: "string \<Rightarrow> string \<Rightarrow> string" where
  "spec_argument pre task = dropWhile isspace (drop (length pre) task)"

text \<open>The specification's condition for summarising: the path resolves to a
  readable file.\<close>

definition readable_file :: "fs \<Rightarrow> string \<Rightarrow> bool" where
  "readable_file files p = (case files p of Text _ \<Rightarrow> True | _ \<Rightarrow> False)"

definition not_found :: "string \<Rightarrow> string" where
  "not_found p = ''File '' @ [CHR 0x27] @ p @ [CHR 0x27] @ '' not found.''"

text \<open>The input a turn of the console loop acts on: the line typed, or what
  \<open>speech_to_text\<close> returned when the line was \<open>voice\<close>.\<close>

definition turn_input :: "turn_caps \<Rightarrow> string \<Rightarrow> error + string" where
  "turn_input caps line =
     (if lower line = ''voice'' then snd (speech_to_text (cap_hear caps)) else Inr line)"

section \<open>Example environments\<close>

text \<open>
  Concrete libraries, files and capabilities at which the theorems are instantiated.
  \<open>demo_dumps\<close> writes a list of strings the way \<open>json.dump\<close> does when no
  character needs escaping, and \<open>demo_loads\<close> decodes the documents the examples
  store.
\<close>

fun demo_dumps :: "pyval \<Rightarrow> string" where
  "demo_dumps (PStr s) = [CHR 0x22] @ s @ [CHR 0x22]"
| "demo_dumps (PList xs) = ''['' @ join '', '' (map demo_dumps xs) @ '']''"
| "demo_dumps _ = ''null''"

definition twelve :: "string list" where
  "twelve = [''You: a'', ''AI: b'', ''You: c'', ''AI: d'', ''You: e'', ''AI: f'',
             ''You: g'', ''AI: h'', ''You: i'', ''AI: j'', ''You: k'', ''AI: l'']"

definition demo_loads :: "string \<Rightarrow> error + pyval" where
  "demo_loads t =
     (if t = ''[]'' then Inr (PList [])
      else if t = demo_dumps (PList (map PStr twelve)) then Inr (PList (map PStr twelve))
      else Inl JSONDecodeError)"

fun demo_str :: "pyval \<Rightarrow> string" where
  "demo_str (PStr s) = s"
| "demo_str _ = ''?''"

definition demo_lib :: lib where
  "demo_lib = \<lparr>json_loads = demo_loads, json_dumps = demo_dumps, str_of = demo_str\<rparr>"

definition fifty :: string where
  "fifty = ''0123456789012345678901234567890123456789012345678X''"

definition demo_files :: fs where
  "demo_files =
     (\<lambda>p. if p = ''notes.txt'' then Text fifty
          else if p = ''docs'' then Denied
          else if p = ''broken.json'' then Text ''{''
          else if p = ''long.json'' then Text (demo_dumps (PList (map PStr twelve)))
          else Absent)"

definition demo_http :: "string \<Rightarrow> error + response" where
  "demo_http url = Inr \<lparr>status_code = 404, json = Inl JSONDecodeError\<rparr>"

definition demo_infer :: "gen_request \<Rightarrow> error + string" where
  "demo_infer req = Inr ''ok''"

definition demo_caps :: turn_caps where
  "demo_caps =
     \<lparr>cap_hear = Recognized ''task: get weather Oslo'', cap_infer = demo_infer,
      cap_http = demo_http, cap_say = (\<lambda>text. Inr ())\<rparr>"

definition demo_agent :: agent where
  "demo_agent = \<lparr>context_file = ''context.json'', context = PList []\<rparr>"

definition demo_prompts :: "string list" where
  "demo_prompts = [''p1'', ''p2'', ''p3'', ''p4'', ''p5'', ''p6'', ''p7'', ''p8'', ''p9'',
                   ''p10'', ''p11'']"

definition demo_turns :: "nat \<Rightarrow> (string \<times> (gen_request \<Rightarrow> error + string)) list" where
  "demo_turns n = map (\<lambda>p. (p, demo_infer)) (take n demo_prompts)"

section \<open>Task routing: properties\<close>

text \<open>When the text starts with the separator, the first occurrence is the one at
  position 0: the split yields the empty text and the rest.\<close>

lemma split1_prefix:
  assumes "prefix sep s" and "sep \<noteq> []"
  shows "split1 s sep = Inr [[], drop (length sep) s]"
proof (cases s)
  case Nil
  with assms show ?thesis by simp
next
  case (Cons c cs)
  with assms show ?thesis by (simp add: split1_def)
qed

lemma perform_task_summarize:
  assumes "prefix ''summarize '' task"
  shows "perform_task l h files task = summarize_file files (strip (drop 10 task))"
proof -
  have "split1 task ''summarize '' = Inr [[], drop (length ''summarize '') task]"
    by (rule split1_prefix [OF assms]) simp
  moreover have "length ''summarize '' = 10"
    by simp
  ultimately have "split1 task ''summarize '' = Inr [[], drop 10 task]"
    by (simp only:)
  with assms show ?thesis
    by (simp add: perform_task_def startswith_def unpack2_def)
qed

lemma not_summarize: "prefix ''draft email '' task \<or> prefix ''get weather '' task \<Longrightarrow> \<not> prefix ''summarize '' task"
  by (auto simp: prefix_def)

lemma not_draft: "prefix ''get weather '' task \<Longrightarrow> \<not> prefix ''draft email '' task"
  by (auto simp: prefix_def)

lemma perform_task_draft:
  assumes "prefix ''draft email '' task"
  shows "perform_task l h files task = Inr (''Drafting an email based on your input: '' @ drop 12 task)"
proof -
  have "split1 task ''draft email '' = Inr [[], drop (length ''draft email '') task]"
    by (rule split1_prefix [OF assms]) simp
  moreover have "length ''draft email '' = 12"
    by simp
  ultimately have "split1 task ''draft email '' = Inr [[], drop 12 task]"
    by (simp only:)
  with assms not_summarize [of task] show ?thesis
    by (simp add: perform_task_def startswith_def second_def)
qed

lemma perform_task_weather:
  assumes "prefix ''get weather '' task"
  shows "perform_task l h files task = get_weather l h (drop 12 task)"
proof -
  have "split1 task ''get weather '' = Inr [[], drop (length ''get weather '') task]"
    by (rule split1_prefix [OF assms]) simp
  moreover have "length ''get weather '' = 12"
    by simp
  ultimately have "split1 task ''get weather '' = Inr [[], drop 12 task]"
    by (simp only:)
  with assms not_summarize [of task] not_draft [of task] show ?thesis
    by (simp add: perform_task_def startswith_def second_def)
qed

lemma perform_task_other:
  assumes "\<not> prefix ''summarize '' task" "\<not> prefix ''draft email '' task" "\<not> prefix ''get weather '' task"
  shows "perform_task l h files task = Inr unrecognized"
  using assms by (simp add: perform_task_def startswith_def)

text \<open>
  C1. The router tests the prefixes \<open>"summarize "\<close>, \<open>"draft email "\<close> and
  \<open>"get weather "\<close> in this order at position 0 and the first that matches decides;
  a text that none of them starts yields the canned message. \<open>"summarize notes.txt"\<close>
  goes to the summarize executor with argument \<open>"notes.txt"\<close>, and
  \<open>"please summarize notes.txt"\<close> is not recognised.
\<close>

theorem task_router_priority:
  "perform_task l h files task =
     (if startswith task ''summarize '' then summarize_file files (strip (drop 10 task))
      else if startswith task ''draft email '' then
        Inr (''Drafting an email based on your input: '' @ drop 12 task)
      else if startswith task ''get weather '' then get_weather l h (drop 12 task)
      else Inr unrecognized)
   \<and> perform_task l h files ''summarize notes.txt'' = summarize_file files ''notes.txt''
   \<and> perform_task l h files ''please summarize notes.txt'' = Inr unrecognized"
proof (intro conjI)
  show "perform_task l h files task =
     (if startswith task ''summarize '' then summarize_file files (strip (drop 10 task))
      else if startswith task ''draft email '' then
        Inr (''Drafting an email based on your input: '' @ drop 12 task)
      else if startswith task ''get weather '' then get_weather l h (drop 12 task)
      else Inr unrecognized)"
    using perform_task_summarize [of task l h files] perform_task_draft [of task l h files]
      perform_task_weather [of task l h files] perform_task_other [of task l h files]
    by (simp add: startswith_def)
  show "perform_task l h files ''summarize notes.txt'' = summarize_file files ''notes.txt''"
    using perform_task_summarize [of "''summarize notes.txt''" l h files]
    by (simp add: strip_def isspace_def)
  show "perform_task l h files ''please summarize notes.txt'' = Inr unrecognized"
    by (rule perform_task_other) simp_all
qed

theorem task_router_priority_witness:
  "perform_task demo_lib demo_http demo_files ''get weather Oslo'' = Inr weather_failure
   \<and> perform_task demo_lib demo_http demo_files ''draft email hi'' =
       Inr ''Drafting an email based on your input: hi''
   \<and> perform_task demo_lib demo_http demo_files ''summarize  notes.txt'' =
       Inr (''Summary: '' @ fifty @ ''...'')"
  using task_router_priority [of demo_lib demo_http demo_files "''get weather Oslo''"]
    task_router_priority [of demo_lib demo_http demo_files "''draft email hi''"]
    task_router_priority [of demo_lib demo_http demo_files "''summarize  notes.txt''"]
  by (simp add: startswith_def get_weather_def demo_http_def strip_def isspace_def
      summarize_file_def path_exists_def read_text_def demo_files_def fifty_def)

text \<open>\<open>strip\<close> removes whitespace, and nothing else, at both ends.\<close>

lemma strip_decomp:
  "s = takeWhile isspace s @ strip s @ rev (takeWhile isspace (rev (dropWhile isspace s)))"
proof -
  let ?d = "dropWhile isspace s"
  have "rev (dropWhile isspace (rev ?d)) @ rev (takeWhile isspace (rev ?d)) =
          rev (takeWhile isspace (rev ?d) @ dropWhile isspace (rev ?d))"
    by (simp only: rev_append)
  also have "\<dots> = rev (rev ?d)"
    by (simp only: takeWhile_dropWhile_id)
  finally have "strip s @ rev (takeWhile isspace (rev ?d)) = ?d"
    by (simp add: strip_def)
  moreover have "s = takeWhile isspace s @ ?d"
    by simp
  ultimately show ?thesis
    by simp
qed

lemma strip_last: "strip s \<noteq> [] \<Longrightarrow> \<not> isspace (last (strip s))"
  by (simp add: strip_def last_rev hd_dropWhile)

lemma strip_hd:
  assumes "strip s \<noteq> []"
  shows "\<not> isspace (hd (strip s))"
proof -
  let ?d = "dropWhile isspace s"
  from assms have ne: "dropWhile isspace (rev ?d) \<noteq> []"
    by (simp add: strip_def)
  have d: "?d \<noteq> []"
  proof
    assume "?d = []"
    with ne show False
      by simp
  qed
  from ne obtain x where x: "x \<in> set (rev ?d)" "\<not> isspace x"
    by auto
  have "hd (strip s) = last (dropWhile isspace (rev ?d))"
    using ne by (simp add: strip_def hd_rev)
  also have "\<dots> = last (rev ?d)"
    using x by (rule dropWhile_last)
  also have "\<dots> = hd ?d"
    using d by (simp add: last_rev)
  finally show ?thesis
    using d by (simp add: hd_dropWhile)
qed

text \<open>
  C9, as the code has it. The argument of a task is the text after the matched prefix:
  unchanged, with its leading and trailing whitespace, for \<open>draft email\<close> and
  \<open>get weather\<close>; with the whitespace at both ends removed for \<open>summarize\<close>. The
  claim as written (leading whitespace trimmed, trailing whitespace kept, for all three
  kinds) fails: \<open>"draft email  hi"\<close> keeps its leading blank, and
  \<open>"summarize notes.txt "\<close> loses its trailing one.
\<close>

theorem task_argument_amended:
  "(startswith task ''draft email '' \<longrightarrow>
      perform_task l h files task =
        Inr (''Drafting an email based on your input: '' @ drop 12 task))
   \<and> (startswith task ''get weather '' \<longrightarrow>
      perform_task l h files task = get_weather l h (drop 12 task))
   \<and> (startswith task ''summarize '' \<longrightarrow>
      perform_task l h files task = summarize_file files (strip (drop 10 task))
      \<and> (\<exists>a b. drop 10 task = a @ strip (drop 10 task) @ b
             \<and> list_all isspace a \<and> list_all isspace b)
      \<and> (strip (drop 10 task) \<noteq> [] \<longrightarrow>
            \<not> isspace (hd (strip (drop 10 task)))
            \<and> \<not> isspace (last (strip (drop 10 task)))))"
proof (intro conjI impI)
  assume "startswith task ''draft email ''"
  then show "perform_task l h files task =
      Inr (''Drafting an email based on your input: '' @ drop 12 task)"
    by (simp add: startswith_def perform_task_draft)
next
  assume "startswith task ''get weather ''"
  then show "perform_task l h files task = get_weather l h (drop 12 task)"
    by (simp add: startswith_def perform_task_weather)
next
  assume "startswith task ''summarize ''"
  then show "perform_task l h files task = summarize_file files (strip (drop 10 task))"
    by (simp add: startswith_def perform_task_summarize)
next
  let ?s = "drop 10 task"
  have "?s = takeWhile isspace ?s @ strip ?s
               @ rev (takeWhile isspace (rev (dropWhile isspace ?s)))"
    by (rule strip_decomp)
  moreover have "list_all isspace (takeWhile isspace ?s)"
    by (simp add: list_all_iff) (meson set_takeWhileD)
  moreover have "list_all isspace (rev (takeWhile isspace (rev (dropWhile isspace ?s))))"
    by (simp add: list_all_iff) (meson set_takeWhileD)
  ultimately show "\<exists>a b. ?s = a @ strip ?s @ b \<and> list_all isspace a \<and> list_all isspace b"
    by blast
next
  assume "strip (drop 10 task) \<noteq> []"
  then show "\<not> isspace (hd (strip (drop 10 task)))"
    by (rule strip_hd)
next
  assume "strip (drop 10 task) \<noteq> []"
  then show "\<not> isspace (last (strip (drop 10 task)))"
    by (rule strip_last)
qed

theorem task_argument_amended_witness:
  "perform_task demo_lib demo_http demo_files ''draft email  hi '' =
     Inr ''Drafting an email based on your input:  hi ''
   \<and> perform_task demo_lib demo_http demo_files ''get weather  Oslo '' = Inr weather_failure
   \<and> perform_task demo_lib demo_http demo_files ''summarize  notes.txt '' =
       Inr (''Summary: '' @ fifty @ ''...'')"
  using task_argument_amended [of "''draft email  hi ''" demo_lib demo_http demo_files]
    task_argument_amended [of "''get weather  Oslo ''" demo_lib demo_http demo_files]
    task_argument_amended [of "''summarize  notes.txt ''" demo_lib demo_http demo_files]
  by (simp add: startswith_def get_weather_def demo_http_def strip_def isspace_def
      summarize_file_def path_exists_def read_text_def demo_files_def fifty_def)

theorem task_argument_counterexample:
  "perform_task demo_lib demo_http demo_files ''draft email  hi'' \<noteq>
     Inr (''Drafting an email based on your input: ''
            @ spec_argument ''draft email '' ''draft email  hi'')
   \<and> perform_task demo_lib demo_http demo_files ''summarize notes.txt '' \<noteq>
       summarize_file demo_files (spec_argument ''summarize '' ''summarize notes.txt '')"
  by (simp add: perform_task_def startswith_def split1_def second_def unpack2_def
      spec_argument_def strip_def isspace_def summarize_file_def path_exists_def
      read_text_def demo_files_def)

section \<open>Task executors: properties\<close>

lemma summarize_file_absent:
  "files p = Absent \<Longrightarrow> summarize_file files p = Inr (not_found p)"
  by (simp add: summarize_file_def path_exists_def not_found_def)

lemma summarize_file_text:
  "files p = Text c \<Longrightarrow> summarize_file files p = Inr (''Summary: '' @ take 200 c @ ''...'')"
  by (simp add: summarize_file_def path_exists_def read_text_def)

lemma summarize_file_denied:
  "files p = Denied \<Longrightarrow> summarize_file files p = Inl OSError"
  by (simp add: summarize_file_def path_exists_def read_text_def)

text \<open>
  C4, as the code has it. The summarize executor answers with the not-found message
  exactly when the path does not exist; for a text file it answers \<open>"Summary: "\<close>,
  the first 200 characters of the content and \<open>"..."\<close>, the marker appended whatever
  the length, so a content of 50 characters comes back whole between the label and the
  marker. The claim as written fails twice: a path that exists and cannot be read gets no
  not-found message, and the result starts with the label \<open>"Summary: "\<close>, not with
  the content.
\<close>

theorem summarize_amended:
  "(summarize_file files p = Inr (not_found p) \<longleftrightarrow> \<not> path_exists files p)
   \<and> (files p = Text c \<longrightarrow>
        summarize_file files p = Inr (''Summary: '' @ take 200 c @ ''...'')
        \<and> (length c \<le> 200 \<longrightarrow> summarize_file files p = Inr (''Summary: '' @ c @ ''...'')))"
proof (intro conjI impI)
  show "summarize_file files p = Inr (not_found p) \<longleftrightarrow> \<not> path_exists files p"
  proof (cases "files p")
    case Absent
    then show ?thesis
      by (simp add: summarize_file_absent path_exists_def)
  next
    case Denied
    then show ?thesis
      by (simp add: summarize_file_denied path_exists_def)
  next
    case (Text c)
    then show ?thesis
      by (simp add: summarize_file_text path_exists_def not_found_def)
  qed
next
  assume "files p = Text c"
  then show "summarize_file files p = Inr (''Summary: '' @ take 200 c @ ''...'')"
    by (rule summarize_file_text)
next
  assume "files p = Text c" and "length c \<le> 200"
  then show "summarize_file files p = Inr (''Summary: '' @ c @ ''...'')"
    by (simp add: summarize_file_text)
qed

theorem summarize_amended_witness:
  "summarize_file demo_files ''missing.txt'' = Inr (not_found ''missing.txt'')
   \<and> \<not> path_exists demo_files ''missing.txt''
   \<and> length fifty = 50
   \<and> summarize_file demo_files ''notes.txt'' = Inr (''Summary: '' @ fifty @ ''...'')"
  using summarize_amended [of demo_files "''missing.txt''" fifty]
    summarize_amended [of demo_files "''notes.txt''" fifty]
  by (simp add: demo_files_def fifty_def path_exists_def)

theorem summarize_counterexample:
  "\<not> readable_file demo_files ''docs''
   \<and> summarize_file demo_files ''docs'' \<noteq> Inr (not_found ''docs'')
   \<and> length fifty = 50
   \<and> demo_files ''notes.txt'' = Text fifty
   \<and> summarize_file demo_files ''notes.txt'' \<noteq> Inr (take 200 fifty @ ''...'')"
  by (simp add: readable_file_def summarize_file_def path_exists_def read_text_def
      demo_files_def fifty_def)

text \<open>
  C6. When the weather capability answers with a status other than 200, the weather
  executor returns the fixed failure message, whatever the status and the body are: no
  exception, and nothing of the answer in the text.
\<close>

theorem weather_failure_on_non_success:
  assumes "http_get (weather_url location) = Inr r" and "status_code r \<noteq> 200"
  shows "get_weather l http_get location = Inr weather_failure"
  using assms by (simp add: get_weather_def)

theorem weather_failure_on_non_success_witness:
  "demo_http (weather_url ''Oslo'') = Inr \<lparr>status_code = 404, json = Inl JSONDecodeError\<rparr>
   \<and> status_code \<lparr>status_code = 404, json = Inl JSONDecodeError\<rparr> \<noteq> 200
   \<and> get_weather demo_lib demo_http ''Oslo'' = Inr weather_failure"
proof -
  have a: "demo_http (weather_url ''Oslo'') = Inr \<lparr>status_code = 404, json = Inl JSONDecodeError\<rparr>"
    by (simp add: demo_http_def)
  have b: "status_code \<lparr>status_code = 404, json = Inl JSONDecodeError\<rparr> \<noteq> 200"
    by simp
  show ?thesis
    using a b
      weather_failure_on_non_success [of demo_http "''Oslo''"
        "\<lparr>status_code = 404, json = Inl JSONDecodeError\<rparr>" demo_lib]
    by simp
qed

section \<open>Context store and response generator: properties\<close>

lemma load_context_absent:
  "files cf = Absent \<Longrightarrow> load_context l files cf = Inr (PList [])"
  by (simp add: load_context_def path_exists_def)

lemma load_context_text:
  "files cf = Text t \<Longrightarrow> load_context l files cf = json_loads l t"
  by (simp add: load_context_def path_exists_def read_text_def)

lemma load_context_denied:
  "files cf = Denied \<Longrightarrow> load_context l files cf = Inl OSError"
  by (simp add: load_context_def path_exists_def read_text_def)

lemma length_last_n: "length (last_n n xs) = min (length xs) n"
  by (simp add: last_n_def)

lemma last_n_map: "last_n n (map f xs) = map f (last_n n xs)"
  by (simp add: last_n_def drop_map)


lemma the_strs_map: "the_strs (map PStr ss) = Some ss"
  by (induction ss) simp_all

lemma save_context_list:
  assumes "files (context_file a) \<noteq> Denied" and "context a = PList xs"
  shows "save_context l a files =
           (Inr (), files(context_file a := Text (json_dumps l (PList (last_n 10 xs)))))"
  using assms by (cases "files (context_file a)") (simp_all add: save_context_def)

lemma generate_response_list:
  assumes ctx: "context a = PList (map PStr ss)"
    and wr: "files (context_file a) \<noteq> Denied"
  shows "generate_response l infer a files prompt max_len =
     (case infer (request (join [CHR 0x0A] (last_n 10 (ss @ [''You: '' @ prompt]))) max_len) of
        Inl e \<Rightarrow> (Inl e, a\<lparr>context := PList (map PStr (ss @ [''You: '' @ prompt]))\<rparr>, files)
      | Inr r \<Rightarrow>
          (Inr r, a\<lparr>context := PList (map PStr (ss @ exchange prompt r))\<rparr>,
           files(context_file a :=
             Text (json_dumps l (PList (map PStr (last_n 10 (ss @ exchange prompt r))))))))"
proof -
  let ?you = "''You: '' @ prompt"
  let ?req = "request (join [CHR 0x0A] (last_n 10 (ss @ [?you]))) max_len"
  let ?c1 = "PList (map PStr (ss @ [?you]))"
  have req: "\<lparr>input_text = join [CHR 0x0A] (last_n 10 (ss @ [?you])),
               max_length = (case max_len of None \<Rightarrow> 200 | Some m \<Rightarrow> m),
               temperature = 7 / 10, top_k = 50, top_p = 95 / 100, do_sample = True\<rparr> = ?req"
    by (simp only: request_def)
  have ap1: "append_str (context a) ?you = Inr ?c1"
    by (simp add: ctx)
  have sl: "slice_last10 ?c1 = Inr (PList (map PStr (last_n 10 (ss @ [?you]))))"
    by (simp only: slice_last10.simps last_n_map)
  have jn: "join_val [CHR 0x0A] (PList (map PStr (last_n 10 (ss @ [?you])))) =
              Inr (join [CHR 0x0A] (last_n 10 (ss @ [?you])))"
    by (simp only: join_val.simps the_strs_map option.case)
  have step: "generate_response l infer a files prompt max_len =
      (case infer ?req of
         Inl e \<Rightarrow> (Inl e, a\<lparr>context := ?c1\<rparr>, files)
       | Inr response \<Rightarrow>
           (case append_str ?c1 (''AI: '' @ response) of
              Inl e \<Rightarrow> (Inl e, a\<lparr>context := ?c1\<rparr>, files)
            | Inr c2 \<Rightarrow>
                (case save_context l (a\<lparr>context := ?c1\<rparr>\<lparr>context := c2\<rparr>) files of
                   (Inl e, files') \<Rightarrow> (Inl e, a\<lparr>context := ?c1\<rparr>\<lparr>context := c2\<rparr>, files')
                 | (Inr _, files') \<Rightarrow>
                     (Inr response, a\<lparr>context := ?c1\<rparr>\<lparr>context := c2\<rparr>, files'))))"
    by (simp only: generate_response_def ap1 sl jn req sum.case Let_def)
  have fin: "(case append_str ?c1 (''AI: '' @ r) of
              Inl e \<Rightarrow> (Inl e, a\<lparr>context := ?c1\<rparr>, files)
            | Inr c2 \<Rightarrow>
                (case save_context l (a\<lparr>context := ?c1\<rparr>\<lparr>context := c2\<rparr>) files of
                   (Inl e, files') \<Rightarrow> (Inl e, a\<lparr>context := ?c1\<rparr>\<lparr>context := c2\<rparr>, files')
                 | (Inr _, files') \<Rightarrow>
                     (Inr r, a\<lparr>context := ?c1\<rparr>\<lparr>context := c2\<rparr>, files'))) =
          (Inr r, a\<lparr>context := PList (map PStr (ss @ exchange prompt r))\<rparr>,
           files(context_file a :=
             Text (json_dumps l (PList (map PStr (last_n 10 (ss @ exchange prompt r)))))))"
    for r
  proof -
    let ?a2 = "a\<lparr>context := PList (map PStr (ss @ exchange prompt r))\<rparr>"
    have c2: "append_str ?c1 (''AI: '' @ r) = Inr (PList (map PStr (ss @ exchange prompt r)))"
      by (simp add: exchange_def)
    have sv: "save_context l ?a2 files =
        (Inr (), files(context_file a :=
             Text (json_dumps l (PList (map PStr (last_n 10 (ss @ exchange prompt r)))))))"
      using save_context_list [of files ?a2 "map PStr (ss @ exchange prompt r)" l] wr
      by (simp add: last_n_map del: map_append)
    show ?thesis
      by (simp only: c2 sum.case) (simp add: sv del: map_append)
  qed
  show ?thesis
  proof (cases "infer ?req")
    case (Inl e)
    then show ?thesis
      by (simp only: step sum.case)
  next
    case (Inr r)
    then show ?thesis
      by (simp only: step sum.case fin)
  qed
qed

text \<open>A run of chat turns that ends without an exception has added one exchange for
  each turn and left the last ten entries in the context file.\<close>

lemma chat_turns_list:
  assumes "chat_turns l a files turns = (Inr rs, a', files')"
    and "context a = PList (map PStr ss)"
    and "files (context_file a) \<noteq> Denied"
  shows "length rs = length turns
    \<and> a' = a\<lparr>context := PList (map PStr (ss @ exchanges (map fst turns) rs))\<rparr>
    \<and> files' = (if turns = [] then files
                else files(context_file a := Text (json_dumps l
                       (PList (map PStr (last_n 10 (ss @ exchanges (map fst turns) rs)))))))"
  using assms
proof (induction turns arbitrary: a files ss rs)
  case Nil
  then show ?case
    by simp
next
  case (Cons t turns)
  obtain p i where t: "t = (p, i)"
    by (cases t)
  let ?req = "request (join [CHR 0x0A] (last_n 10 (ss @ [''You: '' @ p]))) None"
  have gr: "generate_response l i a files p None =
     (case i ?req of
        Inl e \<Rightarrow> (Inl e, a\<lparr>context := PList (map PStr (ss @ [''You: '' @ p]))\<rparr>, files)
      | Inr r \<Rightarrow>
          (Inr r, a\<lparr>context := PList (map PStr (ss @ exchange p r))\<rparr>,
           files(context_file a :=
             Text (json_dumps l (PList (map PStr (last_n 10 (ss @ exchange p r))))))))"
    using Cons.prems(2) Cons.prems(3) by (rule generate_response_list)
  show ?case
  proof (cases "i ?req")
    case (Inl e)
    with gr Cons.prems(1) show ?thesis
      by (simp add: t)
  next
    case (Inr r)
    let ?a1 = "a\<lparr>context := PList (map PStr (ss @ exchange p r))\<rparr>"
    let ?f1 = "files(context_file a :=
                 Text (json_dumps l (PList (map PStr (last_n 10 (ss @ exchange p r))))))"
    from gr Inr have g: "generate_response l i a files p None = (Inr r, ?a1, ?f1)"
      by simp
    obtain res s where rest: "chat_turns l ?a1 ?f1 turns = (res, s)"
      by (cases "chat_turns l ?a1 ?f1 turns")
    from Cons.prems(1) g rest obtain rs' where rs': "res = Inr rs'" "rs = r # rs'" "s = (a', files')"
      by (cases res) (auto simp: t)
    have "chat_turns l ?a1 ?f1 turns = (Inr rs', a', files')"
      using rest rs' by simp
    moreover have "context ?a1 = PList (map PStr (ss @ exchange p r))"
      by simp
    moreover have "?f1 (context_file ?a1) \<noteq> Denied"
      by simp
    ultimately have ih: "length rs' = length turns
      \<and> a' = ?a1\<lparr>context := PList (map PStr ((ss @ exchange p r) @ exchanges (map fst turns) rs'))\<rparr>
      \<and> files' = (if turns = [] then ?f1
                else ?f1(context_file ?a1 := Text (json_dumps l
                       (PList (map PStr (last_n 10 ((ss @ exchange p r) @ exchanges (map fst turns) rs')))))))"
      by (rule Cons.IH)
    have ex: "exchanges (map fst (t # turns)) rs = exchange p r @ exchanges (map fst turns) rs'"
      by (simp add: t rs')
    have nil: "turns = [] \<Longrightarrow> exchanges (map fst turns) rs' = []"
      by simp
    from ih show ?thesis
      unfolding ex by (auto simp: rs' nil)
  qed
qed

text \<open>
  C5, as the code has it. \<open>load_context\<close> returns the empty context when no persisted
  file exists. When the file exists it returns what the JSON decoder yields for its text:
  the decoded value for a valid document, and the decoder's exception, raised to the
  caller, for a corrupt one; a file that cannot be opened raises as well. The claim as
  written (an unreadable or corrupt file gives an empty context, and nothing is ever
  raised) fails on a file that holds \<open>{\<close>.
\<close>

theorem load_amended:
  "(files cf = Absent \<longrightarrow> load_context l files cf = Inr (PList []))
   \<and> (files cf = Text t \<longrightarrow> load_context l files cf = json_loads l t)
   \<and> (files cf = Denied \<longrightarrow> load_context l files cf = Inl OSError)"
  by (simp add: load_context_absent load_context_text load_context_denied)

theorem load_amended_witness:
  "load_context demo_lib demo_files ''context.json'' = Inr (PList [])
   \<and> load_context demo_lib demo_files ''long.json'' = Inr (PList (map PStr twelve))
   \<and> load_context demo_lib demo_files ''docs'' = Inl OSError"
  using load_amended [of demo_files "''context.json''" demo_lib]
    load_amended [of demo_files "''long.json''" demo_lib "demo_dumps (PList (map PStr twelve))"]
    load_amended [of demo_files "''docs''" demo_lib]
  by (simp add: demo_files_def demo_lib_def demo_loads_def twelve_def)

theorem load_counterexample:
  "demo_files ''broken.json'' = Text ''{''
   \<and> json_loads demo_lib ''{'' = Inl JSONDecodeError
   \<and> load_context demo_lib demo_files ''broken.json'' = Inl JSONDecodeError
   \<and> load_context demo_lib demo_files ''broken.json'' \<noteq> Inr (PList [])
   \<and> demo_files ''docs'' = Denied
   \<and> load_context demo_lib demo_files ''docs'' = Inl OSError"
  by (simp add: load_context_def path_exists_def read_text_def demo_files_def demo_lib_def
      demo_loads_def twelve_def)








text \<open>
  C8, as the code has it. After every chat turn the persisted list is the last ten
  entries of the context, so it never has more than 10 entries. The context in memory
  is never trimmed: each chat turn adds two entries to it, and it stays longer than 10
  after the save. The claim as written (the context in memory exceeds 10 only until a
  trim, and has at most 10 entries after a persistence event) fails after six chat
  turns, when the context in memory has 12 entries.
\<close>

theorem persisted_bounded_context_grows:
  "(generate_response l infer a files prompt max_len = (Inr r, a', files')
    \<and> context a = PList (map PStr ss) \<and> files (context_file a) \<noteq> Denied \<longrightarrow>
      files' (context_file a) =
        Text (json_dumps l (PList (map PStr (last_n 10 (ss @ exchange prompt r)))))
      \<and> length (last_n 10 (ss @ exchange prompt r)) \<le> 10
      \<and> context a' = PList (map PStr (ss @ exchange prompt r))
      \<and> context_len (context a') = length ss + 2)
   \<and> (chat_turns l a files turns = (Inr rs, a', files')
       \<and> context a = PList (map PStr ss) \<and> files (context_file a) \<noteq> Denied \<longrightarrow>
      context_len (context a') = length ss + 2 * length turns)"
proof (intro conjI impI)
  assume h: "generate_response l infer a files prompt max_len = (Inr r, a', files')
    \<and> context a = PList (map PStr ss) \<and> files (context_file a) \<noteq> Denied"
  let ?req = "request (join [CHR 0x0A] (last_n 10 (ss @ [''You: '' @ prompt]))) max_len"
  have gr: "generate_response l infer a files prompt max_len =
     (case infer ?req of
        Inl e \<Rightarrow> (Inl e, a\<lparr>context := PList (map PStr (ss @ [''You: '' @ prompt]))\<rparr>, files)
      | Inr r \<Rightarrow>
          (Inr r, a\<lparr>context := PList (map PStr (ss @ exchange prompt r))\<rparr>,
           files(context_file a :=
             Text (json_dumps l (PList (map PStr (last_n 10 (ss @ exchange prompt r))))))))"
    using h by (intro generate_response_list) simp_all
  have res: "a' = a\<lparr>context := PList (map PStr (ss @ exchange prompt r))\<rparr>
    \<and> files' = files(context_file a :=
             Text (json_dumps l (PList (map PStr (last_n 10 (ss @ exchange prompt r))))))"
  proof (cases "infer ?req")
    case (Inl e)
    with gr h show ?thesis
      by (simp only: sum.case) simp
  next
    case (Inr r')
    with gr h show ?thesis
      by (simp only: sum.case) simp
  qed
  from res show "files' (context_file a) =
        Text (json_dumps l (PList (map PStr (last_n 10 (ss @ exchange prompt r)))))"
    by simp
  show "length (last_n 10 (ss @ exchange prompt r)) \<le> 10"
    by (simp add: length_last_n)
  from res show "context a' = PList (map PStr (ss @ exchange prompt r))"
    by simp
  from res show "context_len (context a') = length ss + 2"
    by (simp add: exchange_def)
next
  assume h: "chat_turns l a files turns = (Inr rs, a', files')
       \<and> context a = PList (map PStr ss) \<and> files (context_file a) \<noteq> Denied"
  then have run: "length rs = length turns
    \<and> a' = a\<lparr>context := PList (map PStr (ss @ exchanges (map fst turns) rs))\<rparr>
    \<and> files' = (if turns = [] then files
                else files(context_file a := Text (json_dumps l
                       (PList (map PStr (last_n 10 (ss @ exchanges (map fst turns) rs)))))))"
    using chat_turns_list [of l a files turns rs a' files' ss] by blast
  have "length (exchanges ps rs) = 2 * length ps" if "length rs = length ps" for ps
    using that by (induction ps rs rule: exchanges.induct) (simp_all add: exchange_def)
  from this [of "map fst turns"] run have "length (exchanges (map fst turns) rs) = 2 * length turns"
    by simp
  with run show "context_len (context a') = length ss + 2 * length turns"
    by simp
qed

theorem persisted_bounded_context_grows_witness:
  "snd (snd (chat_turns demo_lib demo_agent demo_files (demo_turns 6))) ''context.json'' =
     Text (demo_dumps (PList (map PStr
       (last_n 10 (exchanges (take 6 demo_prompts) (replicate 6 ''ok''))))))
   \<and> context_len (context (fst (snd (chat_turns demo_lib demo_agent demo_files
        (demo_turns 6))))) = 12"
proof -
  have "fst (chat_turns demo_lib demo_agent demo_files (demo_turns 6)) = Inr (replicate 6 ''ok'')"
    by (simp add: demo_turns_def demo_prompts_def generate_response_def save_context_def
        demo_agent_def demo_files_def demo_infer_def last_n_def demo_lib_def numeral_eq_Suc)
  then have run: "chat_turns demo_lib demo_agent demo_files (demo_turns 6) =
     (Inr (replicate 6 ''ok''),
      fst (snd (chat_turns demo_lib demo_agent demo_files (demo_turns 6))),
      snd (snd (chat_turns demo_lib demo_agent demo_files (demo_turns 6))))"
    by (metis prod.collapse)
  have a: "context demo_agent = PList (map PStr [])" "context_file demo_agent = ''context.json''"
    "demo_files ''context.json'' \<noteq> Denied" "json_dumps demo_lib = demo_dumps"
    "length (demo_turns 6) = 6" "map fst (demo_turns 6) = take 6 demo_prompts"
    by (simp_all add: demo_agent_def demo_files_def demo_lib_def demo_turns_def demo_prompts_def
        comp_def)
  note c = chat_turns_list [where l = demo_lib and a = demo_agent and files = demo_files
      and turns = "demo_turns 6" and rs = "replicate 6 ''ok''" and ss = "[]"
      and a' = "fst (snd (chat_turns demo_lib demo_agent demo_files (demo_turns 6)))"
      and files' = "snd (snd (chat_turns demo_lib demo_agent demo_files (demo_turns 6)))"]
  note t = persisted_bounded_context_grows [where l = demo_lib and a = demo_agent
      and files = demo_files and turns = "demo_turns 6" and rs = "replicate 6 ''ok''"
      and ss = "[]"
      and a' = "fst (snd (chat_turns demo_lib demo_agent demo_files (demo_turns 6)))"
      and files' = "snd (snd (chat_turns demo_lib demo_agent demo_files (demo_turns 6)))"]
  have "demo_turns 6 \<noteq> []"
    using a(5) by auto
  with c run a have "snd (snd (chat_turns demo_lib demo_agent demo_files (demo_turns 6)))
      ''context.json'' = Text (demo_dumps (PList (map PStr
       (last_n 10 (exchanges (take 6 demo_prompts) (replicate 6 ''ok''))))))"
    by simp
  moreover from t run a have "context_len (context (fst (snd (chat_turns demo_lib demo_agent
      demo_files (demo_turns 6))))) = 12"
    by simp
  ultimately show ?thesis
    by simp
qed

theorem context_grows_counterexample:
  "fst (chat_turns demo_lib demo_agent demo_files (demo_turns 6)) = Inr (replicate 6 ''ok'')
   \<and> context_len (context (fst (snd (chat_turns demo_lib demo_agent demo_files
        (demo_turns 6))))) = 12
   \<and> \<not> context_len (context (fst (snd (chat_turns demo_lib demo_agent demo_files
        (demo_turns 6))))) \<le> 10"
  by (simp add: demo_turns_def demo_prompts_def generate_response_def save_context_def
      demo_agent_def demo_files_def demo_infer_def last_n_def demo_lib_def numeral_eq_Suc)

section \<open>The console loop: properties\<close>

text \<open>
  C7. A turn whose input is empty or starts with the task marker \<open>"task: "\<close>, typed
  or recognised from speech, leaves the agent's context and the files as they were; so
  does a turn that ends the loop or that fails before it has an input. A turn that
  changes either of them is a chat turn, and the change is the one
  \<open>generate_response\<close> makes.
\<close>

theorem non_chat_turn_frame:
  "(turn_input caps line = Inr u \<and> (u = [] \<or> startswith u ''task: '') \<longrightarrow>
      snd (snd (console_turn l caps a files line)) = (a, files))
   \<and> (lower line = ''exit'' \<longrightarrow> snd (snd (console_turn l caps a files line)) = (a, files))
   \<and> (turn_input caps line = Inl e \<longrightarrow>
      snd (snd (console_turn l caps a files line)) = (a, files))
   \<and> (snd (snd (console_turn l caps a files line)) \<noteq> (a, files) \<longrightarrow>
      lower line \<noteq> ''exit''
      \<and> (\<exists>v. turn_input caps line = Inr v \<and> v \<noteq> [] \<and> \<not> startswith v ''task: ''
            \<and> snd (snd (console_turn l caps a files line)) =
                snd (generate_response l (cap_infer caps) a files v None)))"
proof -
  have task: "snd (snd (console_turn l caps a files line)) = (a, files)"
    if "turn_input caps line = Inr v" "v = [] \<or> startswith v ''task: ''" for v
    using that
    by (auto simp: console_turn_def turn_input_def speech_to_text_def
        split: if_splits sum.splits prod.splits heard.splits)
  have quit: "snd (snd (console_turn l caps a files line)) = (a, files)"
    if "lower line = ''exit''"
    using that by (simp add: console_turn_def)
  have err: "snd (snd (console_turn l caps a files line)) = (a, files)"
    if "turn_input caps line = Inl e" for e
    using that
    by (auto simp: console_turn_def turn_input_def speech_to_text_def
        split: if_splits sum.splits prod.splits heard.splits)
  have chat: "snd (snd (console_turn l caps a files line)) =
                snd (generate_response l (cap_infer caps) a files v None)"
    if "turn_input caps line = Inr v" "v \<noteq> []" "\<not> startswith v ''task: ''"
      "lower line \<noteq> ''exit''" for v
    using that
    by (auto simp: console_turn_def turn_input_def speech_to_text_def
        split: if_splits sum.splits prod.splits heard.splits)
  show ?thesis
  proof (intro conjI impI)
    assume "turn_input caps line = Inr u \<and> (u = [] \<or> startswith u ''task: '')"
    then show "snd (snd (console_turn l caps a files line)) = (a, files)"
      using task by blast
  next
    assume "lower line = ''exit''"
    then show "snd (snd (console_turn l caps a files line)) = (a, files)"
      by (rule quit)
  next
    assume "turn_input caps line = Inl e"
    then show "snd (snd (console_turn l caps a files line)) = (a, files)"
      by (rule err)
  next
    assume ch: "snd (snd (console_turn l caps a files line)) \<noteq> (a, files)"
    then show "lower line \<noteq> ''exit''"
      using quit by blast
    show "\<exists>v. turn_input caps line = Inr v \<and> v \<noteq> [] \<and> \<not> startswith v ''task: ''
            \<and> snd (snd (console_turn l caps a files line)) =
                snd (generate_response l (cap_infer caps) a files v None)"
    proof (cases "turn_input caps line")
      case (Inl e)
      with ch err show ?thesis
        by blast
    next
      case (Inr v)
      with ch task quit have "v \<noteq> []" "\<not> startswith v ''task: ''" "lower line \<noteq> ''exit''"
        by blast+
      with Inr chat show ?thesis
        by blast
    qed
  qed
qed

theorem non_chat_turn_frame_witness:
  "turn_input demo_caps ''task: get weather Oslo'' = Inr ''task: get weather Oslo''
   \<and> console_turn demo_lib demo_caps demo_agent demo_files ''task: get weather Oslo'' =
       (Inr Again, [weather_failure], demo_agent, demo_files)
   \<and> snd (snd (console_turn demo_lib demo_caps demo_agent demo_files '''')) =
       (demo_agent, demo_files)
   \<and> turn_input demo_caps ''voice'' = Inr ''task: get weather Oslo''
   \<and> snd (snd (console_turn demo_lib demo_caps demo_agent demo_files ''voice'')) =
       (demo_agent, demo_files)
   \<and> snd (snd (console_turn demo_lib demo_caps demo_agent demo_files ''EXIT'')) =
       (demo_agent, demo_files)
   \<and> snd (snd (console_turn demo_lib demo_caps demo_agent demo_files ''hi'')) \<noteq>
       (demo_agent, demo_files)"
proof -
  have low: "lower ''task: get weather Oslo'' \<noteq> ''voice''" "lower '''' \<noteq> ''voice''"
    "lower ''voice'' = ''voice''" "lower ''EXIT'' = ''exit''"
    "lower ''task: get weather Oslo'' \<noteq> ''exit''" "lower ''hi'' \<noteq> ''exit''"
    "lower ''hi'' \<noteq> ''voice''"
    by (simp_all add: lower_def lower_char_def char_of_def bit_simps)
  have ti: "turn_input demo_caps ''task: get weather Oslo'' = Inr ''task: get weather Oslo''"
    "turn_input demo_caps '''' = Inr ''''"
    "turn_input demo_caps ''voice'' = Inr ''task: get weather Oslo''"
    by (simp_all add: turn_input_def low speech_to_text_def demo_caps_def)
  have full: "console_turn demo_lib demo_caps demo_agent demo_files ''task: get weather Oslo'' =
       (Inr Again, [weather_failure], demo_agent, demo_files)"
    by (simp add: console_turn_def low startswith_def perform_task_def split1_def second_def
        get_weather_def demo_caps_def demo_http_def)
  have chat: "snd (snd (console_turn demo_lib demo_caps demo_agent demo_files ''hi'')) \<noteq>
       (demo_agent, demo_files)"
    by (simp add: console_turn_def low startswith_def generate_response_def demo_caps_def
        demo_infer_def demo_agent_def save_context_def demo_files_def last_n_def)
  from non_chat_turn_frame [of demo_caps "''task: get weather Oslo''"
      "''task: get weather Oslo''" demo_lib demo_agent demo_files]
    non_chat_turn_frame [of demo_caps "''''" "''''" demo_lib demo_agent demo_files]
    non_chat_turn_frame [of demo_caps "''voice''" "''task: get weather Oslo''" demo_lib
      demo_agent demo_files]
    non_chat_turn_frame [of demo_caps "''EXIT''" "''''" demo_lib demo_agent demo_files]
    ti low full chat
  show ?thesis
    by (simp add: startswith_def)
qed

end
